theory Spec2Isabelle
  imports Complex_Main "HOL-Library.Monad_Syntax"
begin

section \<open>Overlay Manager API: the data model of main.py\<close>

text \<open>
  The service keeps a list of overlays and a counter in memory and serves five
  operations on them. Python's unbounded \<open>int\<close> is \<open>int\<close>. A \<open>float\<close> is only ever
  compared with the bounds of its \<open>confloat\<close> declaration, never computed with, so it is
  modelled by the real number it denotes (a NaN or an infinity is outside this model).
  A \<open>str\<close> is a \<open>string\<close>, one element per code point; only its length and equality
  are used.

  The three pydantic classes declare the same field names, and a record field is a
  global constant, so the fields carry the prefix of their class: \<open>ov_\<close> for
  \<open>Overlay\<close>, \<open>oc_\<close> for \<open>OverlayCreate\<close>, \<open>ou_\<close> for \<open>OverlayUpdate\<close>.
\<close>

record Overlay =
  ov_id :: int
  ov_name :: string
  ov_type :: string
  ov_x :: real
  ov_y :: real
  ov_w :: real
  ov_h :: real
  ov_opacity :: real
  ov_color :: string
  ov_content :: "string option"
  ov_visible :: bool

record OverlayCreate =
  oc_name :: string
  oc_type :: string
  oc_x :: real
  oc_y :: real
  oc_w :: real
  oc_h :: real
  oc_opacity :: real
  oc_color :: string
  oc_content :: "string option"
  oc_visible :: bool

text \<open>
  Every field of \<open>OverlayUpdate\<close> is \<open>Optional[...] = None\<close>: the parsed payload holds
  \<open>None\<close> or a value, and nothing else about the request.
\<close>

record OverlayUpdate =
  ou_name :: "string option"
  ou_type :: "string option"
  ou_x :: "real option"
  ou_y :: "real option"
  ou_w :: "real option"
  ou_h :: "real option"
  ou_opacity :: "real option"
  ou_color :: "string option"
  ou_content :: "string option"
  ou_visible :: "bool option"

text \<open>
  The failures of a request: the framework rejects a body that does not parse into the
  declared payload class (status 422); the handlers raise \<open>HTTPException(404)\<close>; and a
  pydantic validation error raised inside a handler, by \<open>Overlay(...)\<close>, is caught by
  nothing (status 500).
\<close>

datatype error = RequestValidationError | NotFoundError | UnhandledValidationError

subsection \<open>The declared constraints\<close>

text \<open>\<open>constr(min_length=.., max_length=..)\<close> and \<open>confloat(ge=.., le=..)\<close>.\<close>

definition constr :: "nat \<Rightarrow> nat option \<Rightarrow> string \<Rightarrow> bool" where
  "constr min_length max_length v =
     (min_length \<le> length v \<and> (case max_length of None \<Rightarrow> True | Some m \<Rightarrow> length v \<le> m))"

definition confloat :: "real \<Rightarrow> real \<Rightarrow> real \<Rightarrow> bool" where
  "confloat ge le v = (ge \<le> v \<and> v \<le> le)"

definition unconstrained :: "'a \<Rightarrow> bool" where
  "unconstrained v = True"

subsection \<open>The request body\<close>

text \<open>
  A key of the JSON object of a request is absent, present with \<open>null\<close>, or present with
  a value. The values are typed: a body whose value has the wrong JSON type is not
  modelled.
\<close>

datatype 'a json_field = Omitted | Null | Given 'a

record json_body =
  j_name :: "string json_field"
  j_type :: "string json_field"
  j_x :: "real json_field"
  j_y :: "real json_field"
  j_w :: "real json_field"
  j_h :: "real json_field"
  j_opacity :: "real json_field"
  j_color :: "string json_field"
  j_content :: "string json_field"
  j_visible :: "bool json_field"

text \<open>
  The three ways the classes declare a field. The result \<open>None\<close> is a validation error
  of the field.
  \<^item> \<open>f: T\<close>: required, \<open>null\<close> is not a \<open>T\<close>;
  \<^item> \<open>f: T = d\<close>: the default when the key is absent, \<open>null\<close> is not a \<open>T\<close>;
  \<^item> \<open>f: Optional[T] = None\<close>: \<open>None\<close> when the key is absent or \<open>null\<close>.
\<close>

fun required :: "('a \<Rightarrow> bool) \<Rightarrow> 'a json_field \<Rightarrow> 'a option" where
  "required c Omitted = None"
| "required c Null = None"
| "required c (Given v) = (if c v then Some v else None)"

fun defaulted :: "('a \<Rightarrow> bool) \<Rightarrow> 'a \<Rightarrow> 'a json_field \<Rightarrow> 'a option" where
  "defaulted c d Omitted = Some d"
| "defaulted c d Null = None"
| "defaulted c d (Given v) = (if c v then Some v else None)"

fun optional :: "('a \<Rightarrow> bool) \<Rightarrow> 'a json_field \<Rightarrow> 'a option option" where
  "optional c Omitted = Some None"
| "optional c Null = Some None"
| "optional c (Given v) = (if c v then Some (Some v) else None)"

text \<open>
  The framework builds the handler's \<open>payload\<close> argument from the body: every field is
  validated, and the request fails with 422 when one of them has an error.
\<close>

definition parse_OverlayCreate :: "json_body \<Rightarrow> error + OverlayCreate" where
  "parse_OverlayCreate b =
     (case do {
        name \<leftarrow> required (constr 1 (Some 100)) (j_name b);
        type \<leftarrow> required (constr 1 None) (j_type b);
        x \<leftarrow> defaulted (confloat 0 100) 10.0 (j_x b);
        y \<leftarrow> defaulted (confloat 0 100) 10.0 (j_y b);
        w \<leftarrow> defaulted (confloat 0 100) 20.0 (j_w b);
        h \<leftarrow> defaulted (confloat 0 100) 10.0 (j_h b);
        opacity \<leftarrow> defaulted (confloat 0.0 1.0) 1.0 (j_opacity b);
        color \<leftarrow> defaulted (constr 1 None) ''#ff0000'' (j_color b);
        content \<leftarrow> optional unconstrained (j_content b);
        visible \<leftarrow> defaulted unconstrained True (j_visible b);
        Some \<lparr> oc_name = name, oc_type = type, oc_x = x, oc_y = y, oc_w = w, oc_h = h,
               oc_opacity = opacity, oc_color = color, oc_content = content,
               oc_visible = visible \<rparr>
      } of
        None \<Rightarrow> Inl RequestValidationError
      | Some payload \<Rightarrow> Inr payload)"

definition parse_OverlayUpdate :: "json_body \<Rightarrow> error + OverlayUpdate" where
  "parse_OverlayUpdate b =
     (case do {
        name \<leftarrow> optional (constr 1 (Some 100)) (j_name b);
        type \<leftarrow> optional (constr 1 None) (j_type b);
        x \<leftarrow> optional (confloat 0 100) (j_x b);
        y \<leftarrow> optional (confloat 0 100) (j_y b);
        w \<leftarrow> optional (confloat 0 100) (j_w b);
        h \<leftarrow> optional (confloat 0 100) (j_h b);
        opacity \<leftarrow> optional (confloat 0.0 1.0) (j_opacity b);
        color \<leftarrow> optional (constr 1 None) (j_color b);
        content \<leftarrow> optional unconstrained (j_content b);
        visible \<leftarrow> optional unconstrained (j_visible b);
        Some \<lparr> ou_name = name, ou_type = type, ou_x = x, ou_y = y, ou_w = w, ou_h = h,
               ou_opacity = opacity, ou_color = color, ou_content = content,
               ou_visible = visible \<rparr>
      } of
        None \<Rightarrow> Inl RequestValidationError
      | Some payload \<Rightarrow> Inr payload)"

text \<open>
  \<open>Overlay(**data)\<close> with a value for every field: the constraints of class \<open>Overlay\<close>
  are checked, and the constructor raises when one fails. The record passed in stands
  for the keyword arguments.
\<close>

definition Overlay_constraints :: "Overlay \<Rightarrow> bool" where
  "Overlay_constraints data =
     (constr 1 (Some 100) (ov_name data) \<and> constr 1 None (ov_type data) \<and>
      confloat 0 100 (ov_x data) \<and> confloat 0 100 (ov_y data) \<and>
      confloat 0 100 (ov_w data) \<and> confloat 0 100 (ov_h data) \<and>
      confloat 0.0 1.0 (ov_opacity data) \<and> constr 1 None (ov_color data))"

definition new_Overlay :: "Overlay \<Rightarrow> error + Overlay" where
  "new_Overlay data =
     (if Overlay_constraints data then Inr data else Inl UnhandledValidationError)"

section \<open>The store and the handlers\<close>

text \<open>The module's globals \<open>_overlays\<close> and \<open>_next_id\<close>, and their initial values.\<close>

record store =
  overlays :: "Overlay list"
  next_id :: int

definition init_store :: store where
  "init_store = \<lparr> overlays = [], next_id = 1 \<rparr>"

definition list_overlays :: "store \<Rightarrow> Overlay list" where
  "list_overlays s = overlays s"

text \<open>
  \<open>create_overlay\<close>: the overlay is built first, so a constructor that raises leaves
  both globals as they were.
\<close>

definition create_overlay :: "store \<Rightarrow> OverlayCreate \<Rightarrow> (error + Overlay) \<times> store" where
  "create_overlay s payload =
     (case new_Overlay \<lparr> ov_id = next_id s, ov_name = oc_name payload,
                          ov_type = oc_type payload, ov_x = oc_x payload, ov_y = oc_y payload,
                          ov_w = oc_w payload, ov_h = oc_h payload,
                          ov_opacity = oc_opacity payload, ov_color = oc_color payload,
                          ov_content = oc_content payload, ov_visible = oc_visible payload \<rparr> of
        Inl e \<Rightarrow> (Inl e, s)
      | Inr overlay \<Rightarrow>
          (Inr overlay, s \<lparr> next_id := next_id s + 1, overlays := overlays s @ [overlay] \<rparr>))"

text \<open>\<open>get_overlay\<close>: the first overlay of the list with the id.\<close>

fun get_loop :: "Overlay list \<Rightarrow> int \<Rightarrow> error + Overlay" where
  "get_loop [] overlay_id = Inl NotFoundError"
| "get_loop (ov # rest) overlay_id =
     (if ov_id ov = overlay_id then Inr ov else get_loop rest overlay_id)"

definition get_overlay :: "store \<Rightarrow> int \<Rightarrow> error + Overlay" where
  "get_overlay s overlay_id = get_loop (overlays s) overlay_id"

text \<open>
  \<open>update_overlay\<close> and \<open>delete_overlay\<close> run the same loop,
  \<open>for idx, ov in enumerate(_overlays): if ov.id == overlay_id: ...\<close>, whose body returns
  at the first match: \<open>enumerate_find\<close> is that search, started at index \<open>idx\<close>.
\<close>

fun enumerate_find :: "nat \<Rightarrow> Overlay list \<Rightarrow> int \<Rightarrow> (nat \<times> Overlay) option" where
  "enumerate_find idx [] overlay_id = None"
| "enumerate_find idx (ov # rest) overlay_id =
     (if ov_id ov = overlay_id then Some (idx, ov)
      else enumerate_find (Suc idx) rest overlay_id)"

text \<open>
  \<open>data = ov.dict(); updates = {k: v for k, v in payload.dict().items() if v is not None};
  data.update(updates)\<close>: a field of the payload that is \<open>None\<close> keeps the stored value.
  The payload class has no \<open>id\<close>.
\<close>

definition merged_data :: "Overlay \<Rightarrow> OverlayUpdate \<Rightarrow> Overlay" where
  "merged_data ov payload =
     \<lparr> ov_id = ov_id ov,
       ov_name = (case ou_name payload of None \<Rightarrow> ov_name ov | Some v \<Rightarrow> v),
       ov_type = (case ou_type payload of None \<Rightarrow> ov_type ov | Some v \<Rightarrow> v),
       ov_x = (case ou_x payload of None \<Rightarrow> ov_x ov | Some v \<Rightarrow> v),
       ov_y = (case ou_y payload of None \<Rightarrow> ov_y ov | Some v \<Rightarrow> v),
       ov_w = (case ou_w payload of None \<Rightarrow> ov_w ov | Some v \<Rightarrow> v),
       ov_h = (case ou_h payload of None \<Rightarrow> ov_h ov | Some v \<Rightarrow> v),
       ov_opacity = (case ou_opacity payload of None \<Rightarrow> ov_opacity ov | Some v \<Rightarrow> v),
       ov_color = (case ou_color payload of None \<Rightarrow> ov_color ov | Some v \<Rightarrow> v),
       ov_content = (case ou_content payload of None \<Rightarrow> ov_content ov | Some v \<Rightarrow> Some v),
       ov_visible = (case ou_visible payload of None \<Rightarrow> ov_visible ov | Some v \<Rightarrow> v) \<rparr>"

definition update_overlay :: "store \<Rightarrow> int \<Rightarrow> OverlayUpdate \<Rightarrow> (error + Overlay) \<times> store" where
  "update_overlay s overlay_id payload =
     (case enumerate_find 0 (overlays s) overlay_id of
        None \<Rightarrow> (Inl NotFoundError, s)
      | Some (idx, ov) \<Rightarrow>
          (case new_Overlay (merged_data ov payload) of
             Inl e \<Rightarrow> (Inl e, s)
           | Inr updated \<Rightarrow> (Inr updated, s \<lparr> overlays := (overlays s)[idx := updated] \<rparr>)))"

text \<open>\<open>_overlays.pop(idx)\<close> at an index of the list.\<close>

definition pop :: "nat \<Rightarrow> 'a list \<Rightarrow> 'a list" where
  "pop idx xs = take idx xs @ drop (Suc idx) xs"

definition delete_overlay :: "store \<Rightarrow> int \<Rightarrow> (error + unit) \<times> store" where
  "delete_overlay s overlay_id =
     (case enumerate_find 0 (overlays s) overlay_id of
        None \<Rightarrow> (Inl NotFoundError, s)
      | Some (idx, ov) \<Rightarrow> (Inr (), s \<lparr> overlays := pop idx (overlays s) \<rparr>))"

section \<open>The HTTP surface\<close>

text \<open>
  The five routes on \<open>/api/overlays\<close>. The framework parses the body into the payload
  class of the route before the handler runs, and answers 422 without calling the
  handler when that fails. The status codes are those of the decorators (201 for POST,
  204 for DELETE, 200 otherwise) and of the errors.
\<close>

datatype request =
    GET_overlays
  | POST_overlays json_body
  | GET_overlay int
  | PUT_overlay int json_body
  | DELETE_overlay int

datatype body = Overlays "Overlay list" | One Overlay | Empty | Detail error

type_synonym response = "nat \<times> body"

fun status_of :: "error \<Rightarrow> nat" where
  "status_of RequestValidationError = 422"
| "status_of NotFoundError = 404"
| "status_of UnhandledValidationError = 500"

definition failure :: "error \<Rightarrow> response" where
  "failure e = (status_of e, Detail e)"

fun handle :: "store \<Rightarrow> request \<Rightarrow> response \<times> store" where
  "handle s GET_overlays = ((200, Overlays (list_overlays s)), s)"
| "handle s (POST_overlays b) =
     (case parse_OverlayCreate b of
        Inl e \<Rightarrow> (failure e, s)
      | Inr payload \<Rightarrow>
          (case create_overlay s payload of
             (Inl e, s') \<Rightarrow> (failure e, s')
           | (Inr overlay, s') \<Rightarrow> ((201, One overlay), s')))"
| "handle s (GET_overlay overlay_id) =
     (case get_overlay s overlay_id of
        Inl e \<Rightarrow> (failure e, s)
      | Inr ov \<Rightarrow> ((200, One ov), s))"
| "handle s (PUT_overlay overlay_id b) =
     (case parse_OverlayUpdate b of
        Inl e \<Rightarrow> (failure e, s)
      | Inr payload \<Rightarrow>
          (case update_overlay s overlay_id payload of
             (Inl e, s') \<Rightarrow> (failure e, s')
           | (Inr updated, s') \<Rightarrow> ((200, One updated), s')))"
| "handle s (DELETE_overlay overlay_id) =
     (case delete_overlay s overlay_id of
        (Inl e, s') \<Rightarrow> (failure e, s')
      | (Inr u, s') \<Rightarrow> ((204, Empty), s'))"

text \<open>A sequence of requests, served one after the other from a given store.\<close>

fun serve :: "store \<Rightarrow> request list \<Rightarrow> response list \<times> store" where
  "serve s [] = ([], s)"
| "serve s (r # rs) =
     (case handle s r of (resp, s') \<Rightarrow>
        (case serve s' rs of (resps, s'') \<Rightarrow> (resp # resps, s'')))"

definition state_after :: "request list \<Rightarrow> store" where
  "state_after rs = snd (serve init_store rs)"

definition responses_to :: "request list \<Rightarrow> response list" where
  "responses_to rs = fst (serve init_store rs)"

text \<open>The ids that the POST requests of a run returned, in the order of the run.\<close>

fun created_ids :: "response list \<Rightarrow> int list" where
  "created_ids [] = []"
| "created_ids ((code, One ov) # resps) =
     (if code = 201 then ov_id ov # created_ids resps else created_ids resps)"
| "created_ids (resp # resps) = created_ids resps"

section \<open>Predicates on payloads and stores\<close>

text \<open>
  The constraints that the classes \<open>OverlayCreate\<close> and \<open>OverlayUpdate\<close> declare, as
  predicates on a parsed payload. In \<open>OverlayUpdate\<close> a field that is \<open>None\<close> has nothing
  to satisfy.
\<close>

definition OverlayCreate_constraints :: "OverlayCreate \<Rightarrow> bool" where
  "OverlayCreate_constraints payload =
     (constr 1 (Some 100) (oc_name payload) \<and> constr 1 None (oc_type payload) \<and>
      confloat 0 100 (oc_x payload) \<and> confloat 0 100 (oc_y payload) \<and>
      confloat 0 100 (oc_w payload) \<and> confloat 0 100 (oc_h payload) \<and>
      confloat 0.0 1.0 (oc_opacity payload) \<and> constr 1 None (oc_color payload))"

definition OverlayUpdate_constraints :: "OverlayUpdate \<Rightarrow> bool" where
  "OverlayUpdate_constraints payload =
     ((case ou_name payload of None \<Rightarrow> True | Some v \<Rightarrow> constr 1 (Some 100) v) \<and>
      (case ou_type payload of None \<Rightarrow> True | Some v \<Rightarrow> constr 1 None v) \<and>
      (case ou_x payload of None \<Rightarrow> True | Some v \<Rightarrow> confloat 0 100 v) \<and>
      (case ou_y payload of None \<Rightarrow> True | Some v \<Rightarrow> confloat 0 100 v) \<and>
      (case ou_w payload of None \<Rightarrow> True | Some v \<Rightarrow> confloat 0 100 v) \<and>
      (case ou_h payload of None \<Rightarrow> True | Some v \<Rightarrow> confloat 0 100 v) \<and>
      (case ou_opacity payload of None \<Rightarrow> True | Some v \<Rightarrow> confloat 0.0 1.0 v) \<and>
      (case ou_color payload of None \<Rightarrow> True | Some v \<Rightarrow> constr 1 None v))"

text \<open>
  The keyword arguments that \<open>create_overlay\<close> passes to \<open>Overlay\<close>:
  \<open>id=_next_id, **payload.dict()\<close>, for the counter value \<open>n\<close>.
\<close>

definition Overlay_of :: "int \<Rightarrow> OverlayCreate \<Rightarrow> Overlay" where
  "Overlay_of n payload =
     \<lparr> ov_id = n, ov_name = oc_name payload,
       ov_type = oc_type payload, ov_x = oc_x payload, ov_y = oc_y payload,
       ov_w = oc_w payload, ov_h = oc_h payload,
       ov_opacity = oc_opacity payload, ov_color = oc_color payload,
       ov_content = oc_content payload, ov_visible = oc_visible payload \<rparr>"

text \<open>
  What the handlers keep true of the globals: the ids of the list are pairwise distinct,
  every overlay of the list satisfies the constraints of its class, and every id of the
  list is below the counter.
\<close>

definition store_inv :: "store \<Rightarrow> bool" where
  "store_inv s =
     (distinct (map ov_id (overlays s)) \<and> list_all Overlay_constraints (overlays s) \<and>
      list_all (\<lambda>ov. ov_id ov < next_id s) (overlays s))"

text \<open>
  Two edits of a request body, for comparing a key that is left out with the same key
  sent as \<open>null\<close>: \<open>omit f b\<close> is \<open>b\<close> without the key \<open>f\<close>, and \<open>send_null f b\<close> is \<open>b\<close>
  with \<open>f: null\<close>.
\<close>

datatype field_name =
  F_name | F_type | F_x | F_y | F_w | F_h | F_opacity | F_color | F_content | F_visible

fun omit :: "field_name \<Rightarrow> json_body \<Rightarrow> json_body" where
  "omit F_name b = b \<lparr> j_name := Omitted \<rparr>"
| "omit F_type b = b \<lparr> j_type := Omitted \<rparr>"
| "omit F_x b = b \<lparr> j_x := Omitted \<rparr>"
| "omit F_y b = b \<lparr> j_y := Omitted \<rparr>"
| "omit F_w b = b \<lparr> j_w := Omitted \<rparr>"
| "omit F_h b = b \<lparr> j_h := Omitted \<rparr>"
| "omit F_opacity b = b \<lparr> j_opacity := Omitted \<rparr>"
| "omit F_color b = b \<lparr> j_color := Omitted \<rparr>"
| "omit F_content b = b \<lparr> j_content := Omitted \<rparr>"
| "omit F_visible b = b \<lparr> j_visible := Omitted \<rparr>"

fun send_null :: "field_name \<Rightarrow> json_body \<Rightarrow> json_body" where
  "send_null F_name b = b \<lparr> j_name := Null \<rparr>"
| "send_null F_type b = b \<lparr> j_type := Null \<rparr>"
| "send_null F_x b = b \<lparr> j_x := Null \<rparr>"
| "send_null F_y b = b \<lparr> j_y := Null \<rparr>"
| "send_null F_w b = b \<lparr> j_w := Null \<rparr>"
| "send_null F_h b = b \<lparr> j_h := Null \<rparr>"
| "send_null F_opacity b = b \<lparr> j_opacity := Null \<rparr>"
| "send_null F_color b = b \<lparr> j_color := Null \<rparr>"
| "send_null F_content b = b \<lparr> j_content := Null \<rparr>"
| "send_null F_visible b = b \<lparr> j_visible := Null \<rparr>"

section \<open>Concrete requests and stores\<close>

text \<open>
  The empty object \<open>{}\<close>, and the body \<open>{"name": "Lower Third", "type": "text", "x": 0,
  "y": 80, "w": 100, "h": 20, "content": "Breaking News"}\<close>.
\<close>

definition empty_body :: json_body where
  "empty_body =
     \<lparr> j_name = Omitted, j_type = Omitted, j_x = Omitted, j_y = Omitted, j_w = Omitted,
       j_h = Omitted, j_opacity = Omitted, j_color = Omitted, j_content = Omitted,
       j_visible = Omitted \<rparr>"

definition lower_third :: json_body where
  "lower_third =
     empty_body \<lparr> j_name := Given ''Lower Third'', j_type := Given ''text'', j_x := Given 0,
       j_y := Given 80, j_w := Given 100, j_h := Given 20,
       j_content := Given ''Breaking News'' \<rparr>"

text \<open>
  The overlay that the first POST of \<open>lower_third\<close> creates, the store that holds it
  alone, and the parsed payload of the body \<open>{}\<close>.
\<close>

definition lower_third_created :: Overlay where
  "lower_third_created =
     \<lparr> ov_id = 1, ov_name = ''Lower Third'', ov_type = ''text'', ov_x = 0, ov_y = 80,
       ov_w = 100, ov_h = 20, ov_opacity = 1.0, ov_color = ''#ff0000'',
       ov_content = Some ''Breaking News'', ov_visible = True \<rparr>"

definition one_stored :: store where
  "one_stored = \<lparr> overlays = [lower_third_created], next_id = 2 \<rparr>"

definition no_fields :: OverlayUpdate where
  "no_fields =
     \<lparr> ou_name = None, ou_type = None, ou_x = None, ou_y = None, ou_w = None, ou_h = None,
       ou_opacity = None, ou_color = None, ou_content = None, ou_visible = None \<rparr>"

text \<open>
  Two runs: one that mixes accepted and rejected requests of several kinds, and one of
  three Creates.
\<close>

definition run_mixed :: "request list" where
  "run_mixed =
     [POST_overlays lower_third,
      POST_overlays (lower_third \<lparr> j_opacity := Given 1.5 \<rparr>),
      POST_overlays (lower_third \<lparr> j_name := Given ''Logo'' \<rparr>),
      PUT_overlay 1 (empty_body \<lparr> j_x := Given 5 \<rparr>),
      PUT_overlay 2 (empty_body \<lparr> j_x := Given 500 \<rparr>),
      DELETE_overlay 1,
      POST_overlays lower_third]"

definition run_three :: "request list" where
  "run_three = [POST_overlays lower_third, POST_overlays lower_third, POST_overlays lower_third]"

section \<open>Evaluating a run\<close>

text \<open>The definitions that evaluating the handlers on a concrete input unfolds.\<close>

lemmas eval_simps = state_after_def responses_to_def init_store_def parse_OverlayCreate_def
  parse_OverlayUpdate_def constr_def confloat_def unconstrained_def create_overlay_def
  new_Overlay_def Overlay_constraints_def update_overlay_def delete_overlay_def
  get_overlay_def list_overlays_def merged_data_def pop_def failure_def empty_body_def
  lower_third_def

section \<open>The search loop\<close>

lemma enumerate_find_None:
  "enumerate_find k xs i = None \<longleftrightarrow> i \<notin> ov_id ` set xs"
  by (induction xs arbitrary: k) auto

lemma enumerate_find_Some:
  "enumerate_find k xs i = Some (idx, ov) \<Longrightarrow>
     \<exists>before after. xs = before @ ov # after \<and> idx = k + length before \<and> ov_id ov = i \<and>
        i \<notin> ov_id ` set before"
proof (induction xs arbitrary: k)
  case Nil
  then show ?case by simp
next
  case (Cons a xs)
  show ?case
  proof (cases "ov_id a = i")
    case True
    with Cons.prems have "idx = k" "ov = a" by simp_all
    with True show ?thesis by (intro exI [of _ "[]"] exI [of _ xs]) simp
  next
    case False
    with Cons.prems have "enumerate_find (Suc k) xs i = Some (idx, ov)" by simp
    from Cons.IH [OF this] obtain before after where
      "xs = before @ ov # after" "idx = Suc k + length before" "ov_id ov = i"
      "i \<notin> ov_id ` set before" by blast
    with False show ?thesis by (intro exI [of _ "a # before"] exI [of _ after]) auto
  qed
qed

lemma get_loop_enumerate:
  "get_loop xs i =
     (case enumerate_find k xs i of None \<Rightarrow> Inl NotFoundError | Some (idx, ov) \<Rightarrow> Inr ov)"
  by (induction xs arbitrary: k) auto

section \<open>The invariant of the store\<close>

lemma merged_data_id: "ov_id (merged_data ov p) = ov_id ov"
  by (simp add: merged_data_def)

lemma new_Overlay_Inr: "new_Overlay d = Inr ov \<Longrightarrow> ov = d \<and> Overlay_constraints d"
  by (simp add: new_Overlay_def split: if_splits)

lemma create_overlay_inv:
  assumes "store_inv s"
  shows "store_inv (snd (create_overlay s p))"
  using assms
  by (auto simp: create_overlay_def store_inv_def list_all_iff
      split: sum.splits dest!: new_Overlay_Inr)

lemma update_overlay_inv:
  assumes "store_inv s"
  shows "store_inv (snd (update_overlay s i p))"
proof (cases "enumerate_find 0 (overlays s) i")
  case None
  with assms show ?thesis by (simp add: update_overlay_def)
next
  case (Some a)
  obtain idx ov where a: "a = (idx, ov)" by (cases a)
  from enumerate_find_Some [OF Some [unfolded a]] obtain before after where
    xs: "overlays s = before @ ov # after" "idx = length before" by auto
  show ?thesis
  proof (cases "new_Overlay (merged_data ov p)")
    case (Inl e)
    with Some a assms show ?thesis by (simp add: update_overlay_def)
  next
    case (Inr u)
    from new_Overlay_Inr [OF Inr] have u: "u = merged_data ov p" "Overlay_constraints u"
      by simp_all
    have "ov_id u = ov_id ov" by (simp add: u merged_data_id)
    with assms xs u(2) have "store_inv (s\<lparr>overlays := before @ u # after\<rparr>)"
      by (simp add: store_inv_def)
    with Some a Inr xs show ?thesis by (simp add: update_overlay_def)
  qed
qed

lemma delete_overlay_inv:
  assumes "store_inv s"
  shows "store_inv (snd (delete_overlay s i))"
proof (cases "enumerate_find 0 (overlays s) i")
  case None
  with assms show ?thesis by (simp add: delete_overlay_def)
next
  case (Some a)
  obtain idx ov where a: "a = (idx, ov)" by (cases a)
  from enumerate_find_Some [OF Some [unfolded a]] obtain before after where
    xs: "overlays s = before @ ov # after" "idx = length before" by auto
  with assms have "store_inv (s\<lparr>overlays := before @ after\<rparr>)"
    by (simp add: store_inv_def)
  with Some a xs show ?thesis by (simp add: delete_overlay_def pop_def)
qed

lemma snd_handle:
  "snd (handle s GET_overlays) = s"
  "snd (handle s (GET_overlay i)) = s"
  "snd (handle s (POST_overlays b)) =
     (case parse_OverlayCreate b of Inl e \<Rightarrow> s | Inr p \<Rightarrow> snd (create_overlay s p))"
  "snd (handle s (PUT_overlay i b)) =
     (case parse_OverlayUpdate b of Inl e \<Rightarrow> s | Inr p \<Rightarrow> snd (update_overlay s i p))"
  "snd (handle s (DELETE_overlay i)) = snd (delete_overlay s i)"
  by (simp_all split: sum.splits prod.splits)

lemma snd_serve_Cons: "snd (serve s (r # rs)) = snd (serve (snd (handle s r)) rs)"
  by (simp split: prod.splits)

lemma handle_inv: "store_inv s \<Longrightarrow> store_inv (snd (handle s r))"
  by (cases r)
    (simp_all add: snd_handle create_overlay_inv update_overlay_inv delete_overlay_inv
      del: handle.simps split: sum.splits)

lemma serve_inv: "store_inv s \<Longrightarrow> store_inv (snd (serve s rs))"
proof (induction rs arbitrary: s)
  case Nil
  then show ?case by simp
next
  case (Cons r rs)
  from Cons.IH [OF handle_inv [OF Cons.prems, of r]] show ?case
    by (simp only: snd_serve_Cons)
qed

lemma init_store_inv: "store_inv init_store"
  by (simp add: store_inv_def init_store_def)

lemma state_after_inv: "store_inv (state_after rs)"
  unfolding state_after_def by (rule serve_inv [OF init_store_inv])


section \<open>Parsing and creating\<close>

lemma required_Some: "required c f = Some v \<longleftrightarrow> f = Given v \<and> c v"
  by (cases f) auto

lemma defaulted_Some:
  "defaulted c d f = Some v \<longleftrightarrow> f = Omitted \<and> v = d \<or> f = Given v \<and> c v"
  by (cases f) auto


lemma parse_OverlayCreate_Inr:
  assumes "parse_OverlayCreate b = Inr p"
  shows "required (constr 1 (Some 100)) (j_name b) = Some (oc_name p)"
    and "required (constr 1 None) (j_type b) = Some (oc_type p)"
    and "defaulted (confloat 0 100) 10 (j_x b) = Some (oc_x p)"
    and "defaulted (confloat 0 100) 10 (j_y b) = Some (oc_y p)"
    and "defaulted (confloat 0 100) 20 (j_w b) = Some (oc_w p)"
    and "defaulted (confloat 0 100) 10 (j_h b) = Some (oc_h p)"
    and "defaulted (confloat 0 1) 1 (j_opacity b) = Some (oc_opacity p)"
    and "defaulted (constr 1 None) ''#ff0000'' (j_color b) = Some (oc_color p)"
    and "optional unconstrained (j_content b) = Some (oc_content p)"
    and "defaulted unconstrained True (j_visible b) = Some (oc_visible p)"
  using assms
  by (auto simp: parse_OverlayCreate_def bind_eq_Some_conv split: option.splits)

lemma required_sat: "required c f = Some v \<Longrightarrow> c v"
  by (cases f) (auto split: if_splits)

lemma defaulted_sat: "defaulted c d f = Some v \<Longrightarrow> c d \<Longrightarrow> c v"
  by (cases f) (auto split: if_splits)

lemma parse_OverlayCreate_constraints:
  assumes "parse_OverlayCreate b = Inr p"
  shows "OverlayCreate_constraints p"
proof -
  note f = parse_OverlayCreate_Inr [OF assms]
  have "constr 1 (Some 100) (oc_name p)" by (rule required_sat [OF f(1)])
  moreover have "constr 1 None (oc_type p)" by (rule required_sat [OF f(2)])
  moreover have "confloat 0 100 (oc_x p)"
    by (rule defaulted_sat [OF f(3)]) (simp add: confloat_def)
  moreover have "confloat 0 100 (oc_y p)"
    by (rule defaulted_sat [OF f(4)]) (simp add: confloat_def)
  moreover have "confloat 0 100 (oc_w p)"
    by (rule defaulted_sat [OF f(5)]) (simp add: confloat_def)
  moreover have "confloat 0 100 (oc_h p)"
    by (rule defaulted_sat [OF f(6)]) (simp add: confloat_def)
  moreover have "confloat 0 1 (oc_opacity p)"
    by (rule defaulted_sat [OF f(7)]) (simp add: confloat_def)
  moreover have "constr 1 None (oc_color p)"
    by (rule defaulted_sat [OF f(8)]) (simp add: constr_def)
  ultimately show ?thesis by (simp add: OverlayCreate_constraints_def)
qed

lemma create_overlay_valid:
  assumes "OverlayCreate_constraints p"
  shows "create_overlay s p =
     (Inr (Overlay_of (next_id s) p),
      s \<lparr> next_id := next_id s + 1, overlays := overlays s @ [Overlay_of (next_id s) p] \<rparr>)"
  using assms
  by (simp add: create_overlay_def new_Overlay_def Overlay_constraints_def
      OverlayCreate_constraints_def Overlay_of_def)

lemma handle_POST_valid:
  assumes "parse_OverlayCreate b = Inr p"
  shows "handle s (POST_overlays b) =
     ((201, One (Overlay_of (next_id s) p)),
      s \<lparr> next_id := next_id s + 1, overlays := overlays s @ [Overlay_of (next_id s) p] \<rparr>)"
  using assms create_overlay_valid [OF parse_OverlayCreate_constraints [OF assms]]
  by simp

lemma create_overlay_next_id:
  "create_overlay s p = (Inl e, s') \<Longrightarrow> s' = s"
  "create_overlay s p = (Inr ov, s') \<Longrightarrow> ov_id ov = next_id s \<and> next_id s' = next_id s + 1"
  by (auto simp: create_overlay_def split: sum.splits dest!: new_Overlay_Inr)

lemma update_overlay_next_id: "next_id (snd (update_overlay s i p)) = next_id s"
  by (simp add: update_overlay_def split: option.splits prod.splits sum.splits)

lemma delete_overlay_next_id: "next_id (snd (delete_overlay s i)) = next_id s"
  by (simp add: delete_overlay_def split: option.splits prod.splits)

lemma handle_step:
  "created_ids [fst (handle s r)] = [] \<and> next_id (snd (handle s r)) = next_id s \<or>
   created_ids [fst (handle s r)] = [next_id s] \<and> next_id (snd (handle s r)) = next_id s + 1"
proof (cases r)
  case GET_overlays
  then show ?thesis by simp
next
  case (POST_overlays b)
  then show ?thesis
    by (auto simp: failure_def split: sum.splits prod.splits dest: create_overlay_next_id)
next
  case (GET_overlay i)
  then show ?thesis by (simp add: failure_def split: sum.splits)
next
  case (PUT_overlay i b)
  have "next_id s' = next_id s" if "update_overlay s i p = (x, s')" for p x s'
    using update_overlay_next_id [of s i p] that by simp
  with PUT_overlay show ?thesis
    by (auto simp: failure_def split: sum.splits prod.splits)
next
  case (DELETE_overlay i)
  have "next_id s' = next_id s" if "delete_overlay s i = (x, s')" for x s'
    using delete_overlay_next_id [of s i] that by simp
  with DELETE_overlay show ?thesis
    by (auto simp: failure_def split: sum.splits prod.splits)
qed

lemma created_ids_Cons: "created_ids (resp # resps) = created_ids [resp] @ created_ids resps"
  by (cases "(resp # resps)" rule: created_ids.cases) auto

lemma fst_serve_Cons:
  "fst (serve s (r # rs)) = fst (handle s r) # fst (serve (snd (handle s r)) rs)"
  by (simp split: prod.splits)

lemma serve_next_id_mono: "next_id s \<le> next_id (snd (serve s rs))"
proof (induction rs arbitrary: s)
  case Nil
  then show ?case by simp
next
  case (Cons r rs)
  from handle_step [of s r] have "next_id s \<le> next_id (snd (handle s r))" by auto
  also note Cons.IH [of "snd (handle s r)"]
  finally show ?case by (simp only: snd_serve_Cons)
qed

lemma created_ids_serve:
  "created_ids (fst (serve s rs)) = [next_id s .. next_id (snd (serve s rs)) - 1]"
proof (induction rs arbitrary: s)
  case Nil
  then show ?case by simp
next
  case (Cons r rs)
  let ?s' = "snd (handle s r)"
  have rest: "created_ids (fst (serve ?s' rs)) = [next_id ?s' .. next_id (snd (serve ?s' rs)) - 1]"
    by (rule Cons.IH)
  have split: "created_ids (fst (serve s (r # rs))) =
      created_ids [fst (handle s r)] @ created_ids (fst (serve ?s' rs))"
    unfolding fst_serve_Cons by (rule created_ids_Cons)
  have final: "snd (serve s (r # rs)) = snd (serve ?s' rs)"
    by (rule snd_serve_Cons)
  from handle_step [of s r] show ?case
  proof
    assume a: "created_ids [fst (handle s r)] = [] \<and> next_id ?s' = next_id s"
    have "created_ids (fst (serve s (r # rs))) = [next_id ?s' .. next_id (snd (serve ?s' rs)) - 1]"
      unfolding split rest using a by (simp only: append_Nil)
    then show ?thesis unfolding final using a by (simp only:)
  next
    assume a: "created_ids [fst (handle s r)] = [next_id s] \<and> next_id ?s' = next_id s + 1"
    with serve_next_id_mono [of ?s' rs] have "next_id s \<le> next_id (snd (serve ?s' rs)) - 1"
      by linarith
    from upto_rec1 [OF this]
    have "[next_id s .. next_id (snd (serve ?s' rs)) - 1] =
        next_id s # [next_id ?s' .. next_id (snd (serve ?s' rs)) - 1]"
      using a by (simp only:)
    moreover have "created_ids (fst (serve s (r # rs))) =
        next_id s # [next_id ?s' .. next_id (snd (serve ?s' rs)) - 1]"
      unfolding split rest using a by (simp only: append_Cons append_Nil)
    ultimately show ?thesis unfolding final by (simp only:)
  qed
qed

lemma created_ids_run:
  "created_ids (responses_to rs) = [1 .. next_id (state_after rs) - 1]"
  using created_ids_serve [of init_store rs]
  by (simp add: responses_to_def state_after_def init_store_def)


section \<open>Looking an overlay up\<close>

lemma get_loop_append: "i \<notin> ov_id ` set xs \<Longrightarrow> get_loop (xs @ ys) i = get_loop ys i"
  by (induction xs) auto

lemma get_loop_NotFound: "get_loop xs i = Inl NotFoundError \<longleftrightarrow> i \<notin> ov_id ` set xs"
  by (induction xs) auto

lemma parse_lower_third:
  "parse_OverlayCreate lower_third =
     Inr \<lparr> oc_name = ''Lower Third'', oc_type = ''text'', oc_x = 0, oc_y = 80, oc_w = 100,
           oc_h = 20, oc_opacity = 1, oc_color = ''#ff0000'',
           oc_content = Some ''Breaking News'', oc_visible = True \<rparr>"
  by (simp add: eval_simps)

section \<open>Updating and deleting a stored overlay\<close>

lemma enumerate_find_first:
  "ov_id ov \<notin> ov_id ` set before \<Longrightarrow>
     enumerate_find k (before @ ov # after) (ov_id ov) = Some (k + length before, ov)"
  by (induction before arbitrary: k) auto

lemma store_inv_split:
  assumes "store_inv s" and "ov \<in> set (overlays s)"
  shows "\<exists>before after. overlays s = before @ ov # after \<and>
           ov_id ov \<notin> ov_id ` set before \<and> ov_id ov \<notin> ov_id ` set after \<and>
           Overlay_constraints ov"
proof -
  from split_list [OF assms(2)] obtain before after where
    xs: "overlays s = before @ ov # after" by blast
  from assms(1) have "distinct (map ov_id (overlays s))" "list_all Overlay_constraints (overlays s)"
    by (simp_all add: store_inv_def)
  with xs have "ov_id ov \<notin> ov_id ` set before" "ov_id ov \<notin> ov_id ` set after"
    "Overlay_constraints ov"
    by auto
  with xs show ?thesis by blast
qed

lemma update_overlay_found:
  assumes "overlays s = before @ ov # after" and "ov_id ov \<notin> ov_id ` set before"
    and "Overlay_constraints (merged_data ov p)"
  shows "update_overlay s (ov_id ov) p =
     (Inr (merged_data ov p), s \<lparr> overlays := (overlays s)[length before := merged_data ov p] \<rparr>)"
  using assms(3) enumerate_find_first [OF assms(2), of 0 after]
  by (simp add: update_overlay_def new_Overlay_def assms(1))

lemma delete_overlay_found:
  assumes "overlays s = before @ ov # after" and "ov_id ov \<notin> ov_id ` set before"
  shows "delete_overlay s (ov_id ov) = (Inr (), s \<lparr> overlays := before @ after \<rparr>)"
  using enumerate_find_first [OF assms(2), of 0 after]
  by (simp add: delete_overlay_def pop_def assms(1))

lemma delete_overlay_missing:
  assumes "i \<notin> ov_id ` set (overlays s)"
  shows "delete_overlay s i = (Inl NotFoundError, s)"
  using assms enumerate_find_None [of 0 "overlays s" i]
  by (simp add: delete_overlay_def)

section \<open>The merged candidate of an update\<close>

lemma optional_sat:
  "optional c f = Some r \<Longrightarrow> (case r of None \<Rightarrow> True | Some v \<Rightarrow> c v)"
  by (cases f) (auto split: if_splits)

lemma optional_merge:
  "optional c f = Some r \<Longrightarrow>
     (case r of None \<Rightarrow> old | Some v \<Rightarrow> v) = (case f of Given v \<Rightarrow> v | _ \<Rightarrow> old)"
  by (cases f) (auto split: if_splits)

lemma optional_merge_content:
  "optional c f = Some r \<Longrightarrow>
     (case r of None \<Rightarrow> old | Some v \<Rightarrow> Some v) = (case f of Given v \<Rightarrow> Some v | _ \<Rightarrow> old)"
  by (cases f) (auto split: if_splits)

lemma parse_OverlayUpdate_Inr:
  assumes "parse_OverlayUpdate b = Inr p"
  shows "optional (constr 1 (Some 100)) (j_name b) = Some (ou_name p)"
    and "optional (constr 1 None) (j_type b) = Some (ou_type p)"
    and "optional (confloat 0 100) (j_x b) = Some (ou_x p)"
    and "optional (confloat 0 100) (j_y b) = Some (ou_y p)"
    and "optional (confloat 0 100) (j_w b) = Some (ou_w p)"
    and "optional (confloat 0 100) (j_h b) = Some (ou_h p)"
    and "optional (confloat 0 1) (j_opacity b) = Some (ou_opacity p)"
    and "optional (constr 1 None) (j_color b) = Some (ou_color p)"
    and "optional unconstrained (j_content b) = Some (ou_content p)"
    and "optional unconstrained (j_visible b) = Some (ou_visible p)"
  using assms
  by (auto simp: parse_OverlayUpdate_def bind_eq_Some_conv split: option.splits)

lemma parse_OverlayUpdate_constraints:
  assumes "parse_OverlayUpdate b = Inr p"
  shows "OverlayUpdate_constraints p"
  unfolding OverlayUpdate_constraints_def
  using parse_OverlayUpdate_Inr [OF assms, THEN optional_sat]
  by (simp cong: option.case_cong)

lemma keep_or_replace:
  "c old \<Longrightarrow> (case new of None \<Rightarrow> True | Some v \<Rightarrow> c v) \<Longrightarrow>
     c (case new of None \<Rightarrow> old | Some v \<Rightarrow> v)"
  by (cases new) auto

lemma merged_data_constraints:
  assumes "Overlay_constraints ov" and "OverlayUpdate_constraints p"
  shows "Overlay_constraints (merged_data ov p)"
proof -
  from assms(1) have a:
    "constr 1 (Some 100) (ov_name ov)" "constr 1 None (ov_type ov)"
    "confloat 0 100 (ov_x ov)" "confloat 0 100 (ov_y ov)"
    "confloat 0 100 (ov_w ov)" "confloat 0 100 (ov_h ov)"
    "confloat 0 1 (ov_opacity ov)" "constr 1 None (ov_color ov)"
    by (simp_all add: Overlay_constraints_def)
  from assms(2) have b:
    "case ou_name p of None \<Rightarrow> True | Some v \<Rightarrow> constr 1 (Some 100) v"
    "case ou_type p of None \<Rightarrow> True | Some v \<Rightarrow> constr 1 None v"
    "case ou_x p of None \<Rightarrow> True | Some v \<Rightarrow> confloat 0 100 v"
    "case ou_y p of None \<Rightarrow> True | Some v \<Rightarrow> confloat 0 100 v"
    "case ou_w p of None \<Rightarrow> True | Some v \<Rightarrow> confloat 0 100 v"
    "case ou_h p of None \<Rightarrow> True | Some v \<Rightarrow> confloat 0 100 v"
    "case ou_opacity p of None \<Rightarrow> True | Some v \<Rightarrow> confloat 0 1 v"
    "case ou_color p of None \<Rightarrow> True | Some v \<Rightarrow> constr 1 None v"
    by (simp_all add: OverlayUpdate_constraints_def cong: option.case_cong)
  have "constr 1 (Some 100) (ov_name (merged_data ov p))"
    unfolding merged_data_def Overlay.simps by (rule keep_or_replace [OF a(1) b(1)])
  moreover have "constr 1 None (ov_type (merged_data ov p))"
    unfolding merged_data_def Overlay.simps by (rule keep_or_replace [OF a(2) b(2)])
  moreover have "confloat 0 100 (ov_x (merged_data ov p))"
    unfolding merged_data_def Overlay.simps by (rule keep_or_replace [OF a(3) b(3)])
  moreover have "confloat 0 100 (ov_y (merged_data ov p))"
    unfolding merged_data_def Overlay.simps by (rule keep_or_replace [OF a(4) b(4)])
  moreover have "confloat 0 100 (ov_w (merged_data ov p))"
    unfolding merged_data_def Overlay.simps by (rule keep_or_replace [OF a(5) b(5)])
  moreover have "confloat 0 100 (ov_h (merged_data ov p))"
    unfolding merged_data_def Overlay.simps by (rule keep_or_replace [OF a(6) b(6)])
  moreover have "confloat 0 1 (ov_opacity (merged_data ov p))"
    unfolding merged_data_def Overlay.simps by (rule keep_or_replace [OF a(7) b(7)])
  moreover have "constr 1 None (ov_color (merged_data ov p))"
    unfolding merged_data_def Overlay.simps by (rule keep_or_replace [OF a(8) b(8)])
  ultimately show ?thesis by (simp add: Overlay_constraints_def)
qed

lemma enumerate_find_mem: "enumerate_find k xs i = Some (idx, ov) \<Longrightarrow> ov \<in> set xs"
  by (drule enumerate_find_Some) auto

lemma parse_empty_body: "parse_OverlayUpdate empty_body = Inr no_fields"
  by (simp add: parse_OverlayUpdate_def empty_body_def no_fields_def)

lemma merged_data_no_fields: "merged_data ov no_fields = ov"
  by (simp add: merged_data_def no_fields_def)

lemma handle_PUT_found:
  assumes inv: "store_inv s" and mem: "ov \<in> set (overlays s)"
    and parse: "parse_OverlayUpdate b = Inr p"
  shows "\<exists>idx. idx < length (overlays s) \<and> overlays s ! idx = ov \<and>
           handle s (PUT_overlay (ov_id ov) b) =
             ((200, One (merged_data ov p)),
              s \<lparr> overlays := (overlays s)[idx := merged_data ov p] \<rparr>)"
proof -
  from store_inv_split [OF inv mem] obtain before after where
    xs: "overlays s = before @ ov # after" and fresh: "ov_id ov \<notin> ov_id ` set before"
    and valid: "Overlay_constraints ov"
    by blast
  from merged_data_constraints [OF valid parse_OverlayUpdate_constraints [OF parse]]
  have "Overlay_constraints (merged_data ov p)" .
  from update_overlay_found [OF xs fresh this] parse
  have "handle s (PUT_overlay (ov_id ov) b) =
      ((200, One (merged_data ov p)),
       s \<lparr> overlays := (overlays s)[length before := merged_data ov p] \<rparr>)"
    by simp
  moreover from xs have "length before < length (overlays s)" "overlays s ! length before = ov"
    by simp_all
  ultimately show ?thesis by blast
qed

section \<open>Rejected bodies, and null against omission\<close>

lemma parse_OverlayCreate_Inl: "parse_OverlayCreate b = Inl e \<Longrightarrow> e = RequestValidationError"
  by (simp add: parse_OverlayCreate_def split: option.splits)

lemma parse_OverlayUpdate_null_omitted:
  "parse_OverlayUpdate (send_null f b) = parse_OverlayUpdate (omit f b)"
  by (cases f) (simp_all add: parse_OverlayUpdate_def)

lemma handle_PUT_null_omitted:
  "handle s (PUT_overlay i (send_null f b)) = handle s (PUT_overlay i (omit f b))"
  by (simp only: handle.simps parse_OverlayUpdate_null_omitted)

section \<open>The claims\<close>

text \<open>
  C1 says that two update payloads exist, one leaving a field out and one sending it as
  \<open>null\<close>, that give different results. No such pair exists: \<open>update_overlay\<close> filters
  \<open>payload.dict()\<close> by \<open>v is not None\<close>, and \<open>dict()\<close> holds \<open>None\<close> for a field in both
  cases.
\<close>

theorem update_null_never_differs_from_omission:
  "\<not> (\<exists>s overlay_id f b.
        handle s (PUT_overlay overlay_id (omit f b)) \<noteq>
        handle s (PUT_overlay overlay_id (send_null f b)))"
  by (simp only: handle_PUT_null_omitted) simp

text \<open>
  C1, as amended. Update treats a field sent as \<open>null\<close> exactly as an omitted field:
  for every store, id, field and body, the request with the field set to \<open>null\<close> and
  the request with the field left out get the same response and leave the same store.
  The presence of a field is not tracked apart from its value.
\<close>

theorem update_null_same_as_omitted:
  "handle s (PUT_overlay overlay_id (send_null f b)) =
   handle s (PUT_overlay overlay_id (omit f b))"
  by (rule handle_PUT_null_omitted)

theorem update_null_same_as_omitted_witness:
  "handle one_stored (PUT_overlay 1 (send_null F_content empty_body)) =
     ((200, One lower_third_created), one_stored) \<and>
   handle one_stored (PUT_overlay 1 (omit F_content empty_body)) =
     ((200, One lower_third_created), one_stored) \<and>
   ov_content lower_third_created = Some ''Breaking News''"
proof -
  have "handle one_stored (PUT_overlay 1 (omit F_content empty_body)) =
      ((200, One lower_third_created), one_stored)"
    by (simp add: eval_simps one_stored_def lower_third_created_def)
  with update_null_same_as_omitted [of one_stored 1 F_content empty_body] show ?thesis
    by (simp add: lower_third_created_def)
qed

text \<open>
  C2. The ids that the Create calls of a run return are strictly increasing, and none
  is returned twice, whatever other requests (Delete among them) the run interleaves.
  The statement is about every sequence of the five operations, from the empty store.
\<close>

theorem created_ids_strictly_increasing:
  "sorted_wrt (<) (created_ids (responses_to rs)) \<and> distinct (created_ids (responses_to rs))"
  by (simp add: created_ids_run strict_sorted_iff)

theorem created_ids_strictly_increasing_witness:
  "created_ids (responses_to run_mixed) = [1, 2, 3] \<and>
   sorted_wrt (<) (created_ids (responses_to run_mixed)) \<and>
   distinct (created_ids (responses_to run_mixed))"
proof -
  have "created_ids (responses_to run_mixed) = [1, 2, 3]"
    by (simp add: eval_simps run_mixed_def)
  with created_ids_strictly_increasing [of run_mixed] show ?thesis by blast
qed

text \<open>
  C3 says that an Update sets every field the payload supplies to the supplied value.
  That fails for a field supplied as \<open>null\<close>: the body \<open>{"content": null}\<close> is a valid
  update payload that supplies \<open>content\<close>, and the Update of the overlay created from
  \<open>lower_third\<close> answers 200 with the content still "Breaking News", not the supplied
  \<open>null\<close>, because \<open>update_overlay\<close> drops every entry of \<open>payload.dict()\<close> that is
  \<open>None\<close>.
\<close>

theorem partial_update_null_field_not_set:
  "lower_third_created \<in> set (overlays (state_after [POST_overlays lower_third])) \<and>
   j_content (send_null F_content empty_body) = Null \<and>
   parse_OverlayUpdate (send_null F_content empty_body) = Inr no_fields \<and>
   handle (state_after [POST_overlays lower_third])
       (PUT_overlay (ov_id lower_third_created) (send_null F_content empty_body)) =
     ((200, One lower_third_created), state_after [POST_overlays lower_third]) \<and>
   ov_content lower_third_created = Some ''Breaking News'' \<and>
   ov_content lower_third_created \<noteq> None"
proof -
  have s: "state_after [POST_overlays lower_third] =
      \<lparr> overlays = [lower_third_created], next_id = 2 \<rparr>"
    by (simp add: eval_simps lower_third_created_def)
  have p: "parse_OverlayUpdate (send_null F_content empty_body) = Inr no_fields"
    by (simp add: parse_OverlayUpdate_def empty_body_def no_fields_def)
  have "handle \<lparr> overlays = [lower_third_created], next_id = 2 \<rparr>
       (PUT_overlay (ov_id lower_third_created) (send_null F_content empty_body)) =
     ((200, One lower_third_created), \<lparr> overlays = [lower_third_created], next_id = 2 \<rparr>)"
    by (simp add: eval_simps no_fields_def lower_third_created_def)
  with s p show ?thesis by (simp add: lower_third_created_def)
qed

text \<open>
  C3, as amended. In every state reached from the empty store, for every stored overlay
  \<open>ov\<close> and every valid partial payload, Update of \<open>ov\<close>'s id answers 200 with an
  overlay that has \<open>ov\<close>'s id, the payload's value in every field that the payload
  supplies with a value other than \<open>null\<close>, and \<open>ov\<close>'s value in every other field (a
  field left out, or supplied as \<open>null\<close>); the collection differs only at the position
  of \<open>ov\<close>, which now holds the returned overlay.
\<close>

theorem partial_update_preserves_other_fields:
  assumes "ov \<in> set (overlays (state_after rs))" and "parse_OverlayUpdate b = Inr payload"
  shows "\<exists>idx updated.
           idx < length (overlays (state_after rs)) \<and> overlays (state_after rs) ! idx = ov \<and>
           handle (state_after rs) (PUT_overlay (ov_id ov) b) =
             ((200, One updated),
              (state_after rs) \<lparr> overlays := (overlays (state_after rs))[idx := updated] \<rparr>) \<and>
           ov_id updated = ov_id ov \<and>
           ov_name updated = (case j_name b of Given v \<Rightarrow> v | _ \<Rightarrow> ov_name ov) \<and>
           ov_type updated = (case j_type b of Given v \<Rightarrow> v | _ \<Rightarrow> ov_type ov) \<and>
           ov_x updated = (case j_x b of Given v \<Rightarrow> v | _ \<Rightarrow> ov_x ov) \<and>
           ov_y updated = (case j_y b of Given v \<Rightarrow> v | _ \<Rightarrow> ov_y ov) \<and>
           ov_w updated = (case j_w b of Given v \<Rightarrow> v | _ \<Rightarrow> ov_w ov) \<and>
           ov_h updated = (case j_h b of Given v \<Rightarrow> v | _ \<Rightarrow> ov_h ov) \<and>
           ov_opacity updated = (case j_opacity b of Given v \<Rightarrow> v | _ \<Rightarrow> ov_opacity ov) \<and>
           ov_color updated = (case j_color b of Given v \<Rightarrow> v | _ \<Rightarrow> ov_color ov) \<and>
           ov_content updated =
             (case j_content b of Given v \<Rightarrow> Some v | _ \<Rightarrow> ov_content ov) \<and>
           ov_visible updated = (case j_visible b of Given v \<Rightarrow> v | _ \<Rightarrow> ov_visible ov)"
proof -
  note f = parse_OverlayUpdate_Inr [OF assms(2)]
  let ?u = "merged_data ov payload"
  from handle_PUT_found [OF state_after_inv assms] obtain idx where
    "idx < length (overlays (state_after rs))" "overlays (state_after rs) ! idx = ov"
    "handle (state_after rs) (PUT_overlay (ov_id ov) b) =
       ((200, One ?u), (state_after rs) \<lparr> overlays := (overlays (state_after rs))[idx := ?u] \<rparr>)"
    by blast
  moreover have "ov_id ?u = ov_id ov" by (rule merged_data_id)
  moreover have "ov_name ?u = (case j_name b of Given v \<Rightarrow> v | _ \<Rightarrow> ov_name ov)"
    unfolding merged_data_def Overlay.simps by (rule optional_merge [OF f(1)])
  moreover have "ov_type ?u = (case j_type b of Given v \<Rightarrow> v | _ \<Rightarrow> ov_type ov)"
    unfolding merged_data_def Overlay.simps by (rule optional_merge [OF f(2)])
  moreover have "ov_x ?u = (case j_x b of Given v \<Rightarrow> v | _ \<Rightarrow> ov_x ov)"
    unfolding merged_data_def Overlay.simps by (rule optional_merge [OF f(3)])
  moreover have "ov_y ?u = (case j_y b of Given v \<Rightarrow> v | _ \<Rightarrow> ov_y ov)"
    unfolding merged_data_def Overlay.simps by (rule optional_merge [OF f(4)])
  moreover have "ov_w ?u = (case j_w b of Given v \<Rightarrow> v | _ \<Rightarrow> ov_w ov)"
    unfolding merged_data_def Overlay.simps by (rule optional_merge [OF f(5)])
  moreover have "ov_h ?u = (case j_h b of Given v \<Rightarrow> v | _ \<Rightarrow> ov_h ov)"
    unfolding merged_data_def Overlay.simps by (rule optional_merge [OF f(6)])
  moreover have "ov_opacity ?u = (case j_opacity b of Given v \<Rightarrow> v | _ \<Rightarrow> ov_opacity ov)"
    unfolding merged_data_def Overlay.simps by (rule optional_merge [OF f(7)])
  moreover have "ov_color ?u = (case j_color b of Given v \<Rightarrow> v | _ \<Rightarrow> ov_color ov)"
    unfolding merged_data_def Overlay.simps by (rule optional_merge [OF f(8)])
  moreover have "ov_content ?u =
      (case j_content b of Given v \<Rightarrow> Some v | _ \<Rightarrow> ov_content ov)"
    unfolding merged_data_def Overlay.simps by (rule optional_merge_content [OF f(9)])
  moreover have "ov_visible ?u = (case j_visible b of Given v \<Rightarrow> v | _ \<Rightarrow> ov_visible ov)"
    unfolding merged_data_def Overlay.simps by (rule optional_merge [OF f(10)])
  ultimately show ?thesis by blast
qed


theorem partial_update_preserves_other_fields_witness:
  "lower_third_created \<in> set (overlays (state_after [POST_overlays lower_third])) \<and>
   parse_OverlayUpdate (empty_body \<lparr> j_visible := Given False \<rparr>) =
     Inr (no_fields \<lparr> ou_visible := Some False \<rparr>) \<and>
   handle (state_after [POST_overlays lower_third])
       (PUT_overlay 1 (empty_body \<lparr> j_visible := Given False \<rparr>)) =
     ((200, One (lower_third_created \<lparr> ov_visible := False \<rparr>)),
      \<lparr> overlays = [lower_third_created \<lparr> ov_visible := False \<rparr>], next_id = 2 \<rparr>)"
proof -
  let ?b = "empty_body \<lparr> j_visible := Given False \<rparr>"
  have s: "state_after [POST_overlays lower_third] =
      \<lparr> overlays = [lower_third_created], next_id = 2 \<rparr>"
    by (simp add: eval_simps lower_third_created_def)
  then have mem: "lower_third_created \<in> set (overlays (state_after [POST_overlays lower_third]))"
    by simp
  have p: "parse_OverlayUpdate ?b = Inr (no_fields \<lparr> ou_visible := Some False \<rparr>)"
    by (simp add: parse_OverlayUpdate_def empty_body_def no_fields_def unconstrained_def)
  from partial_update_preserves_other_fields [OF mem p] obtain idx updated where
    idx: "idx < length (overlays (state_after [POST_overlays lower_third]))"
    and put: "handle (state_after [POST_overlays lower_third])
        (PUT_overlay (ov_id lower_third_created) ?b) =
      ((200, One updated),
       (state_after [POST_overlays lower_third])
         \<lparr> overlays := (overlays (state_after [POST_overlays lower_third]))[idx := updated] \<rparr>)"
    and "ov_id updated = ov_id lower_third_created"
    and "ov_name updated = (case j_name ?b of Given v \<Rightarrow> v | _ \<Rightarrow> ov_name lower_third_created)"
    and "ov_type updated = (case j_type ?b of Given v \<Rightarrow> v | _ \<Rightarrow> ov_type lower_third_created)"
    and "ov_x updated = (case j_x ?b of Given v \<Rightarrow> v | _ \<Rightarrow> ov_x lower_third_created)"
    and "ov_y updated = (case j_y ?b of Given v \<Rightarrow> v | _ \<Rightarrow> ov_y lower_third_created)"
    and "ov_w updated = (case j_w ?b of Given v \<Rightarrow> v | _ \<Rightarrow> ov_w lower_third_created)"
    and "ov_h updated = (case j_h ?b of Given v \<Rightarrow> v | _ \<Rightarrow> ov_h lower_third_created)"
    and "ov_opacity updated =
      (case j_opacity ?b of Given v \<Rightarrow> v | _ \<Rightarrow> ov_opacity lower_third_created)"
    and "ov_color updated =
      (case j_color ?b of Given v \<Rightarrow> v | _ \<Rightarrow> ov_color lower_third_created)"
    and "ov_content updated =
      (case j_content ?b of Given v \<Rightarrow> Some v | _ \<Rightarrow> ov_content lower_third_created)"
    and "ov_visible updated =
      (case j_visible ?b of Given v \<Rightarrow> v | _ \<Rightarrow> ov_visible lower_third_created)"
    by blast
  then have u: "updated = lower_third_created \<lparr> ov_visible := False \<rparr>"
    by (simp add: lower_third_created_def empty_body_def)
  from idx s have "idx = 0" by simp
  with put u s have "handle (state_after [POST_overlays lower_third]) (PUT_overlay 1 ?b) =
     ((200, One (lower_third_created \<lparr> ov_visible := False \<rparr>)),
      \<lparr> overlays = [lower_third_created \<lparr> ov_visible := False \<rparr>], next_id = 2 \<rparr>)"
    by (simp add: lower_third_created_def)
  with mem p show ?thesis by blast
qed

text \<open>
  C4. In every store state, a Create whose body gives a field a value outside its
  constraint (a name that is empty or longer than 100 characters, an empty type or
  color, x, y, w or h outside [0, 100], an opacity outside [0, 1]) is answered with the
  validation error (status 422), and the store is exactly as before: nothing is
  appended, the counter does not advance, and no value is clamped into range.
\<close>

theorem invalid_create_rejected_store_unchanged:
  assumes "(\<exists>v. j_name b = Given v \<and> (length v < 1 \<or> 100 < length v)) \<or>
           (\<exists>v. j_type b = Given v \<and> length v < 1) \<or>
           (\<exists>v. j_x b = Given v \<and> (v < 0 \<or> 100 < v)) \<or>
           (\<exists>v. j_y b = Given v \<and> (v < 0 \<or> 100 < v)) \<or>
           (\<exists>v. j_w b = Given v \<and> (v < 0 \<or> 100 < v)) \<or>
           (\<exists>v. j_h b = Given v \<and> (v < 0 \<or> 100 < v)) \<or>
           (\<exists>v. j_opacity b = Given v \<and> (v < 0 \<or> 1 < v)) \<or>
           (\<exists>v. j_color b = Given v \<and> length v < 1)"
  shows "handle s (POST_overlays b) = ((422, Detail RequestValidationError), s)"
proof (cases "parse_OverlayCreate b")
  case (Inl e)
  with parse_OverlayCreate_Inl [OF Inl] show ?thesis by (simp add: failure_def)
next
  case (Inr p)
  note f = parse_OverlayCreate_Inr [OF Inr]
  from assms consider
      (name) v where "j_name b = Given v" "length v < 1 \<or> 100 < length v"
    | (type) v where "j_type b = Given v" "length v < 1"
    | (x) v where "j_x b = Given v" "v < 0 \<or> 100 < v"
    | (y) v where "j_y b = Given v" "v < 0 \<or> 100 < v"
    | (w) v where "j_w b = Given v" "v < 0 \<or> 100 < v"
    | (h) v where "j_h b = Given v" "v < 0 \<or> 100 < v"
    | (opacity) v where "j_opacity b = Given v" "v < 0 \<or> 1 < v"
    | (color) v where "j_color b = Given v" "length v < 1"
    by blast
  then have False
  proof cases
    case name
    with f(1) show False by (auto simp: required_Some constr_def)
  next
    case type
    with f(2) show False by (auto simp: required_Some constr_def)
  next
    case x
    with f(3) show False by (auto simp: defaulted_Some confloat_def)
  next
    case y
    with f(4) show False by (auto simp: defaulted_Some confloat_def)
  next
    case w
    with f(5) show False by (auto simp: defaulted_Some confloat_def)
  next
    case h
    with f(6) show False by (auto simp: defaulted_Some confloat_def)
  next
    case opacity
    with f(7) show False by (auto simp: defaulted_Some confloat_def)
  next
    case color
    with f(8) show False by (auto simp: defaulted_Some constr_def)
  qed
  then show ?thesis ..
qed

theorem invalid_create_rejected_store_unchanged_witness:
  "handle one_stored (POST_overlays (lower_third \<lparr> j_opacity := Given 1.5 \<rparr>)) =
     ((422, Detail RequestValidationError), one_stored) \<and>
   handle one_stored (POST_overlays (lower_third \<lparr> j_name := Given [] \<rparr>)) =
     ((422, Detail RequestValidationError), one_stored) \<and>
   handle one_stored (POST_overlays (lower_third \<lparr> j_x := Given 100.5 \<rparr>)) =
     ((422, Detail RequestValidationError), one_stored)"
proof -
  have "\<exists>v. j_opacity (lower_third \<lparr> j_opacity := Given 1.5 \<rparr>) = Given v \<and> (v < 0 \<or> 1 < v)"
    by (rule exI [of _ "1.5"]) simp
  then have "handle one_stored (POST_overlays (lower_third \<lparr> j_opacity := Given 1.5 \<rparr>)) =
      ((422, Detail RequestValidationError), one_stored)"
    by (intro invalid_create_rejected_store_unchanged) blast
  moreover
  have "\<exists>v. j_name (lower_third \<lparr> j_name := Given [] \<rparr>) = Given v \<and>
      (length v < 1 \<or> 100 < length v)"
    by (rule exI [of _ "[]"]) simp
  then have "handle one_stored (POST_overlays (lower_third \<lparr> j_name := Given [] \<rparr>)) =
      ((422, Detail RequestValidationError), one_stored)"
    by (intro invalid_create_rejected_store_unchanged) blast
  moreover
  have "\<exists>v. j_x (lower_third \<lparr> j_x := Given 100.5 \<rparr>) = Given v \<and> (v < 0 \<or> 100 < v)"
    by (rule exI [of _ "100.5"]) simp
  then have "handle one_stored (POST_overlays (lower_third \<lparr> j_x := Given 100.5 \<rparr>)) =
      ((422, Detail RequestValidationError), one_stored)"
    by (intro invalid_create_rejected_store_unchanged) blast
  ultimately show ?thesis by blast
qed

text \<open>
  C5. In every state reached from the empty store, a Create with a valid payload
  followed by a Get of the id it returned succeeds and yields the overlay that the
  Create returned.
\<close>

theorem create_then_get_round_trip:
  assumes "parse_OverlayCreate b = Inr payload"
  shows "\<exists>ov s'. handle (state_after rs) (POST_overlays b) = ((201, One ov), s') \<and>
           handle s' (GET_overlay (ov_id ov)) = ((200, One ov), s')"
proof -
  let ?s = "state_after rs"
  let ?ov = "Overlay_of (next_id ?s) payload"
  let ?s' = "?s \<lparr> next_id := next_id ?s + 1, overlays := overlays ?s @ [?ov] \<rparr>"
  have post: "handle ?s (POST_overlays b) = ((201, One ?ov), ?s')"
    by (rule handle_POST_valid [OF assms])
  have "list_all (\<lambda>ov. ov_id ov < next_id ?s) (overlays ?s)"
    using state_after_inv [of rs] by (simp add: store_inv_def)
  then have "ov_id ?ov \<notin> ov_id ` set (overlays ?s)"
    by (auto simp: list_all_iff Overlay_of_def)
  then have "get_loop (overlays ?s @ [?ov]) (ov_id ?ov) = Inr ?ov"
    by (simp add: get_loop_append)
  then have "handle ?s' (GET_overlay (ov_id ?ov)) = ((200, One ?ov), ?s')"
    by (simp add: get_overlay_def)
  with post show ?thesis by blast
qed


theorem create_then_get_round_trip_witness:
  "handle (state_after run_mixed) (POST_overlays lower_third) =
     ((201, One (lower_third_created \<lparr> ov_id := 4 \<rparr>)),
      snd (handle (state_after run_mixed) (POST_overlays lower_third))) \<and>
   handle (snd (handle (state_after run_mixed) (POST_overlays lower_third))) (GET_overlay 4) =
     ((200, One (lower_third_created \<lparr> ov_id := 4 \<rparr>)),
      snd (handle (state_after run_mixed) (POST_overlays lower_third)))"
proof -
  from create_then_get_round_trip [OF parse_lower_third, of run_mixed] obtain ov s' where
    post: "handle (state_after run_mixed) (POST_overlays lower_third) = ((201, One ov), s')"
    and get: "handle s' (GET_overlay (ov_id ov)) = ((200, One ov), s')"
    by blast
  have "fst (handle (state_after run_mixed) (POST_overlays lower_third)) =
      (201, One (lower_third_created \<lparr> ov_id := 4 \<rparr>))"
    by (simp add: eval_simps run_mixed_def lower_third_created_def)
  with post have "ov = lower_third_created \<lparr> ov_id := 4 \<rparr>" by simp
  with post get show ?thesis by (simp add: lower_third_created_def)
qed



text \<open>
  C7. In every state reached from the empty store: when an overlay with the id is
  stored, Delete answers 204 with no body and removes that one element, the others
  keeping their order, and a Get of the id in the resulting state answers not found;
  when no overlay has the id, Delete answers not found and the store is unchanged.
\<close>

theorem delete_removes_exactly_one:
  "(overlay_id \<in> ov_id ` set (overlays (state_after rs)) \<longrightarrow>
      (\<exists>before ov after.
         overlays (state_after rs) = before @ ov # after \<and> ov_id ov = overlay_id \<and>
         handle (state_after rs) (DELETE_overlay overlay_id) =
           ((204, Empty), (state_after rs) \<lparr> overlays := before @ after \<rparr>) \<and>
         handle ((state_after rs) \<lparr> overlays := before @ after \<rparr>) (GET_overlay overlay_id) =
           ((404, Detail NotFoundError), (state_after rs) \<lparr> overlays := before @ after \<rparr>))) \<and>
   (overlay_id \<notin> ov_id ` set (overlays (state_after rs)) \<longrightarrow>
      handle (state_after rs) (DELETE_overlay overlay_id) =
        ((404, Detail NotFoundError), state_after rs))"
proof (intro conjI impI)
  let ?s = "state_after rs"
  assume "overlay_id \<in> ov_id ` set (overlays ?s)"
  then obtain ov where ov: "ov \<in> set (overlays ?s)" "ov_id ov = overlay_id" by auto
  from store_inv_split [OF state_after_inv ov(1)] obtain before after where
    xs: "overlays ?s = before @ ov # after"
    and fresh: "ov_id ov \<notin> ov_id ` set before" "ov_id ov \<notin> ov_id ` set after"
    by blast
  let ?s' = "?s \<lparr> overlays := before @ after \<rparr>"
  from delete_overlay_found [OF xs fresh(1)]
  have del: "handle ?s (DELETE_overlay overlay_id) = ((204, Empty), ?s')"
    by (simp add: ov(2))
  from fresh have "get_loop (before @ after) overlay_id = Inl NotFoundError"
    by (simp add: get_loop_NotFound ov(2) [symmetric] image_Un)
  then have "handle ?s' (GET_overlay overlay_id) = ((404, Detail NotFoundError), ?s')"
    by (simp add: get_overlay_def failure_def)
  with xs ov(2) del show "\<exists>before ov after.
         overlays ?s = before @ ov # after \<and> ov_id ov = overlay_id \<and>
         handle ?s (DELETE_overlay overlay_id) =
           ((204, Empty), ?s \<lparr> overlays := before @ after \<rparr>) \<and>
         handle (?s \<lparr> overlays := before @ after \<rparr>) (GET_overlay overlay_id) =
           ((404, Detail NotFoundError), ?s \<lparr> overlays := before @ after \<rparr>)"
    by blast
next
  assume "overlay_id \<notin> ov_id ` set (overlays (state_after rs))"
  from delete_overlay_missing [OF this]
  show "handle (state_after rs) (DELETE_overlay overlay_id) =
      ((404, Detail NotFoundError), state_after rs)"
    by (simp add: failure_def)
qed

theorem delete_removes_exactly_one_witness:
  "map ov_id (overlays (state_after run_three)) = [1, 2, 3] \<and>
   fst (handle (state_after run_three) (DELETE_overlay 2)) = (204, Empty) \<and>
   map ov_id (overlays (snd (handle (state_after run_three) (DELETE_overlay 2)))) = [1, 3] \<and>
   fst (handle (snd (handle (state_after run_three) (DELETE_overlay 2))) (GET_overlay 2)) =
     (404, Detail NotFoundError) \<and>
   handle (state_after run_three) (DELETE_overlay 7) =
     ((404, Detail NotFoundError), state_after run_three)"
proof -
  have ids: "map ov_id (overlays (state_after run_three)) = [1, 2, 3]"
    by (simp add: eval_simps run_three_def)
  then have "ov_id ` set (overlays (state_after run_three)) = {1, 2, 3}"
    by (simp only: set_map [symmetric]) simp
  then have mem: "2 \<in> ov_id ` set (overlays (state_after run_three))"
    and non: "7 \<notin> ov_id ` set (overlays (state_after run_three))"
    by simp_all
  from delete_removes_exactly_one [of 2 run_three] mem obtain before ov after where
    xs: "overlays (state_after run_three) = before @ ov # after" "ov_id ov = 2"
    and del: "handle (state_after run_three) (DELETE_overlay 2) =
           ((204, Empty), (state_after run_three) \<lparr> overlays := before @ after \<rparr>)"
    and get: "handle ((state_after run_three) \<lparr> overlays := before @ after \<rparr>) (GET_overlay 2) =
           ((404, Detail NotFoundError), (state_after run_three) \<lparr> overlays := before @ after \<rparr>)"
    by blast
  from ids xs have "map ov_id before @ 2 # map ov_id after = [1, 2, 3]" by simp
  then have "map ov_id before = [1] \<and> map ov_id after = [3]"
    by (cases "map ov_id before") (auto simp: Cons_eq_append_conv append_eq_Cons_conv)
  then have "map ov_id (before @ after) = [1, 3]" by simp
  with del get delete_removes_exactly_one [of 7 run_three] non ids show ?thesis by simp
qed

text \<open>
  C8. In every state reached from the empty store by any sequence of the five
  operations, the ids of the collection are pairwise distinct and every stored overlay
  satisfies the field constraints: the name has 1 to 100 characters, the type and the
  color are not empty, x, y, w and h lie in [0, 100], the opacity lies in [0, 1].
\<close>

theorem reachable_store_distinct_and_valid:
  "distinct (map ov_id (overlays (state_after rs))) \<and>
   (\<forall>ov \<in> set (overlays (state_after rs)).
      1 \<le> length (ov_name ov) \<and> length (ov_name ov) \<le> 100 \<and>
      1 \<le> length (ov_type ov) \<and> 1 \<le> length (ov_color ov) \<and>
      0 \<le> ov_x ov \<and> ov_x ov \<le> 100 \<and> 0 \<le> ov_y ov \<and> ov_y ov \<le> 100 \<and>
      0 \<le> ov_w ov \<and> ov_w ov \<le> 100 \<and> 0 \<le> ov_h ov \<and> ov_h ov \<le> 100 \<and>
      0 \<le> ov_opacity ov \<and> ov_opacity ov \<le> 1)"
  using state_after_inv [of rs]
  by (simp add: store_inv_def list_all_iff Overlay_constraints_def constr_def confloat_def)

theorem reachable_store_distinct_and_valid_witness:
  "map ov_id (overlays (state_after run_mixed)) = [2, 3] \<and>
   distinct (map ov_id (overlays (state_after run_mixed))) \<and>
   list_all (\<lambda>ov. 1 \<le> length (ov_name ov) \<and> length (ov_name ov) \<le> 100 \<and>
      1 \<le> length (ov_type ov) \<and> 1 \<le> length (ov_color ov) \<and>
      0 \<le> ov_x ov \<and> ov_x ov \<le> 100 \<and> 0 \<le> ov_y ov \<and> ov_y ov \<le> 100 \<and>
      0 \<le> ov_w ov \<and> ov_w ov \<le> 100 \<and> 0 \<le> ov_h ov \<and> ov_h ov \<le> 100 \<and>
      0 \<le> ov_opacity ov \<and> ov_opacity ov \<le> 1) (overlays (state_after run_mixed))"
proof -
  have "map ov_id (overlays (state_after run_mixed)) = [2, 3]"
    by (simp add: eval_simps run_mixed_def)
  with reachable_store_distinct_and_valid [of run_mixed] show ?thesis
    unfolding list_all_iff by blast
qed

text \<open>
  C9. In every state reached from the empty store, for every stored overlay, an Update
  of its id with the empty payload \<open>{}\<close> succeeds, returns the stored overlay with
  every field unchanged, and leaves the collection and the id counter as they were.
\<close>

theorem empty_update_is_identity:
  assumes "ov \<in> set (overlays (state_after rs))"
  shows "handle (state_after rs) (PUT_overlay (ov_id ov) empty_body) =
           ((200, One ov), state_after rs)"
proof -
  from handle_PUT_found [OF state_after_inv assms parse_empty_body] obtain idx where
    at: "overlays (state_after rs) ! idx = ov"
    and put: "handle (state_after rs) (PUT_overlay (ov_id ov) empty_body) =
       ((200, One (merged_data ov no_fields)),
        (state_after rs) \<lparr> overlays := (overlays (state_after rs))[idx := merged_data ov no_fields] \<rparr>)"
    by blast
  from at have "(overlays (state_after rs))[idx := ov] = overlays (state_after rs)"
    using list_update_id [of "overlays (state_after rs)" idx] by simp
  then have "(state_after rs) \<lparr> overlays := (overlays (state_after rs))[idx := ov] \<rparr> =
      state_after rs"
    by simp
  with put show ?thesis by (simp only: merged_data_no_fields)
qed

theorem empty_update_is_identity_witness:
  "lower_third_created \<in> set (overlays (state_after [POST_overlays lower_third])) \<and>
   handle (state_after [POST_overlays lower_third]) (PUT_overlay 1 empty_body) =
     ((200, One lower_third_created), \<lparr> overlays = [lower_third_created], next_id = 2 \<rparr>)"
proof -
  have s: "state_after [POST_overlays lower_third] =
      \<lparr> overlays = [lower_third_created], next_id = 2 \<rparr>"
    by (simp add: eval_simps lower_third_created_def)
  then have mem: "lower_third_created \<in> set (overlays (state_after [POST_overlays lower_third]))"
    by simp
  from empty_update_is_identity [OF mem] s mem show ?thesis by (simp add: lower_third_created_def)
qed

text \<open>
  C10. When every stored overlay satisfies the constraints of class \<open>Overlay\<close> and
  every field that the payload supplies satisfies the constraint that class
  \<open>OverlayUpdate\<close> declares for it, the candidate merged from any stored overlay and
  the payload satisfies every constraint of \<open>Overlay\<close>, so \<open>Overlay(**data)\<close> returns
  it; the only failure that \<open>update_overlay\<close> can then signal is not found.
\<close>

theorem update_candidate_always_valid:
  assumes "list_all Overlay_constraints (overlays s)" and "OverlayUpdate_constraints payload"
  shows "(\<forall>ov \<in> set (overlays s).
            new_Overlay (merged_data ov payload) = Inr (merged_data ov payload)) \<and>
         (\<forall>e. fst (update_overlay s overlay_id payload) = Inl e \<longrightarrow> e = NotFoundError)"
proof -
  have ok: "new_Overlay (merged_data ov payload) = Inr (merged_data ov payload)"
    if "ov \<in> set (overlays s)" for ov
  proof -
    from assms(1) that have "Overlay_constraints ov" by (simp add: list_all_iff)
    from merged_data_constraints [OF this assms(2)] show ?thesis
      by (simp add: new_Overlay_def)
  qed
  have "e = NotFoundError" if "fst (update_overlay s overlay_id payload) = Inl e" for e
  proof (cases "enumerate_find 0 (overlays s) overlay_id")
    case None
    with that show ?thesis by (simp add: update_overlay_def)
  next
    case (Some a)
    obtain idx ov where a: "a = (idx, ov)" by (cases a)
    from Some a have "ov \<in> set (overlays s)" by (simp add: enumerate_find_mem)
    from ok [OF this] Some a that show ?thesis by (simp add: update_overlay_def)
  qed
  with ok show ?thesis by blast
qed

theorem update_candidate_always_valid_witness:
  "list_all Overlay_constraints (overlays one_stored) \<and>
   OverlayUpdate_constraints (no_fields \<lparr> ou_x := Some 5 \<rparr>) \<and>
   new_Overlay (merged_data lower_third_created (no_fields \<lparr> ou_x := Some 5 \<rparr>)) =
     Inr (lower_third_created \<lparr> ov_x := 5 \<rparr>) \<and>
   fst (update_overlay one_stored 1 (no_fields \<lparr> ou_x := Some 5 \<rparr>)) =
     Inr (lower_third_created \<lparr> ov_x := 5 \<rparr>) \<and>
   fst (update_overlay one_stored 9 (no_fields \<lparr> ou_x := Some 5 \<rparr>)) = Inl NotFoundError"
proof -
  have a: "list_all Overlay_constraints (overlays one_stored)"
    by (simp add: one_stored_def lower_third_created_def Overlay_constraints_def constr_def
        confloat_def)
  have b: "OverlayUpdate_constraints (no_fields \<lparr> ou_x := Some 5 \<rparr>)"
    by (simp add: OverlayUpdate_constraints_def no_fields_def confloat_def cong: option.case_cong)
  have m: "merged_data lower_third_created (no_fields \<lparr> ou_x := Some 5 \<rparr>) =
      lower_third_created \<lparr> ov_x := 5 \<rparr>"
    by (simp add: merged_data_def no_fields_def lower_third_created_def)
  have mem: "lower_third_created \<in> set (overlays one_stored)" by (simp add: one_stored_def)
  have u1: "fst (update_overlay one_stored 1 (no_fields \<lparr> ou_x := Some 5 \<rparr>)) =
      Inr (lower_third_created \<lparr> ov_x := 5 \<rparr>)"
    by (simp add: eval_simps one_stored_def no_fields_def lower_third_created_def)
  have u9: "fst (update_overlay one_stored 9 (no_fields \<lparr> ou_x := Some 5 \<rparr>)) \<noteq>
      Inr (lower_third_created \<lparr> ov_x := 5 \<rparr>)"
    by (simp add: eval_simps one_stored_def no_fields_def lower_third_created_def)
  from update_candidate_always_valid [OF a b, of 9] mem m u1
  have "new_Overlay (merged_data lower_third_created (no_fields \<lparr> ou_x := Some 5 \<rparr>)) =
      Inr (lower_third_created \<lparr> ov_x := 5 \<rparr>)"
    and "\<forall>e. fst (update_overlay one_stored 9 (no_fields \<lparr> ou_x := Some 5 \<rparr>)) = Inl e \<longrightarrow>
      e = NotFoundError"
    by auto
  moreover have "\<exists>e. fst (update_overlay one_stored 9 (no_fields \<lparr> ou_x := Some 5 \<rparr>)) = Inl e"
    by (simp add: eval_simps one_stored_def no_fields_def lower_third_created_def)
  ultimately show ?thesis using a b u1 by auto
qed

end
